theory Spec2Isabelle
  imports Main
begin

section \<open>Storage keys: \<open>normalizePath\<close> and \<open>getFullKey\<close>\<close>

text \<open>
  The model follows \<^verbatim>\<open>src/persistence/azureBlobStorage.ts\<close>, class
  \<^verbatim>\<open>AzureBlobStorage\<close>. A JavaScript string is a sequence of code units; the
  two code units the code inspects, the slash and the backslash, are single characters, so a
  string is modelled as a \<^typ>\<open>string\<close> (a list of characters).
\<close>

definition slash :: char where
  "slash = CHR ''/''"

definition backslash :: char where
  "backslash = CHR 0x5C"

text \<open>\<^verbatim>\<open>value.replace(/\\/g, "\/")\<close>: every backslash becomes a slash.\<close>

definition replaceBackslashes :: "string \<Rightarrow> string" where
  "replaceBackslashes value = map (\<lambda>c. if c = backslash then slash else c) value"

text \<open>
  \<^verbatim>\<open>value.replace(/\/{2,}/gm, "\/")\<close>: scanning from the left, a position where
  two or more slashes begin is matched greedily (the whole run) and replaced by one slash;
  any other character is copied.
\<close>

function replaceSlashRuns :: "string \<Rightarrow> string" where
  "replaceSlashRuns [] = []"
| "replaceSlashRuns (c # cs) =
     (if c = slash \<and> cs \<noteq> [] \<and> hd cs = slash
      then slash # replaceSlashRuns (dropWhile (\<lambda>x. x = slash) cs)
      else c # replaceSlashRuns cs)"
  by pat_completeness auto
termination
  by (relation "measure length") (auto simp: le_imp_less_Suc length_dropWhile_le)

definition startsWith :: "string \<Rightarrow> string \<Rightarrow> bool" where
  "startsWith value p = (take (length p) value = p)"

definition endsWith :: "string \<Rightarrow> string \<Rightarrow> bool" where
  "endsWith value p = (length p \<le> length value \<and> drop (length value - length p) value = p)"

text \<open>
  \<^verbatim>\<open>normalizePath\<close> of \<^verbatim>\<open>azureBlobStorage.ts\<close>: backslashes are replaced,
  then one leading slash is dropped (\<^verbatim>\<open>substring(1)\<close>), then one trailing slash
  (\<^verbatim>\<open>slice(0, -1)\<close>), and the runs of slashes are collapsed last.
\<close>

definition normalizePath :: "string \<Rightarrow> string" where
  "normalizePath value =
     (let v1 = replaceBackslashes value;
          v2 = (if startsWith v1 ''/'' then drop 1 v1 else v1);
          v3 = (if endsWith v2 ''/'' then take (length v2 - 1) v2 else v2)
      in replaceSlashRuns v3)"

text \<open>
  The fields of the object that the operations read once \<^verbatim>\<open>initContainer\<close> has
  run: the base path, and whether a batch client exists (it is created only from a
  connection string).
\<close>

record storage =
  basePath :: string
  hasBlobBatchClient :: bool

text \<open>\<^verbatim>\<open>getFullKey\<close>: the template \<^verbatim>\<open>`${this.basePath}/${this.normalizePath(blobKey)}`\<close>.\<close>

definition getFullKey :: "storage \<Rightarrow> string \<Rightarrow> string" where
  "getFullKey this blobKey = basePath this @ ''/'' @ normalizePath blobKey"

text \<open>
  The repository holds a second \<^verbatim>\<open>AzureBlobStorage\<close>, the abstract base class
  that \<^verbatim>\<open>azureBlobStorage.browser.ts\<close> and \<^verbatim>\<open>azureBlobStorage.server.ts\<close>
  extend. Its two helpers differ: the runs of slashes are collapsed before the leading and
  trailing slash are dropped, and \<^verbatim>\<open>getFullKey\<close> normalises the combined string,
  leaving the separator out when the base path is empty.
\<close>

definition normalizePath_base :: "string \<Rightarrow> string" where
  "normalizePath_base value =
     (let v1 = replaceSlashRuns (replaceBackslashes value);
          v2 = (if startsWith v1 ''/'' then drop 1 v1 else v1);
          v3 = (if endsWith v2 ''/'' then take (length v2 - 1) v2 else v2)
      in v3)"

definition getFullKey_base :: "storage \<Rightarrow> string \<Rightarrow> string" where
  "getFullKey_base this blobKey =
     (let fullUrl = (if basePath this \<noteq> [] then basePath this @ ''/'' @ blobKey else blobKey)
      in normalizePath_base fullUrl)"

text \<open>The properties a storage key is meant to have.\<close>

fun hasSlashRun :: "string \<Rightarrow> bool" where
  "hasSlashRun (c # d # cs) = ((c = slash \<and> d = slash) \<or> hasSlashRun (d # cs))"
| "hasSlashRun _ = False"

definition canonicalKey :: "string \<Rightarrow> bool" where
  "canonicalKey k =
     (backslash \<notin> set k \<and> \<not> hasSlashRun k \<and> \<not> startsWith k ''/'' \<and> \<not> endsWith k ''/'')"

section \<open>\<open>chunkArray\<close>\<close>

text \<open>
  \<^verbatim>\<open>srcArray.splice(0, chunkSize)\<close> removes the first
  \<open>min (max chunkSize 0) (length srcArray)\<close> elements of the array in place and returns
  them. The model returns the removed elements and the array that is left. A
  \<^verbatim>\<open>number\<close> is taken to be an integer here; \<^term>\<open>nat\<close> sends a negative
  count to \<open>0\<close>, as the clamping of \<^verbatim>\<open>splice\<close> does.
\<close>

definition splice0 :: "'a list \<Rightarrow> int \<Rightarrow> 'a list \<times> 'a list" where
  "splice0 srcArray deleteCount = (take (nat deleteCount) srcArray, drop (nat deleteCount) srcArray)"

text \<open>
  The loop \<^verbatim>\<open>while (srcArray.length) { results.push(srcArray.splice(0, chunkSize)); }\<close>.
  Nothing in the code bounds the number of iterations, so the loop is a partial function:
  \<^term>\<open>None\<close> is a call that never returns. The result holds the chunks and the final
  contents of the caller's array, which the loop mutates.
\<close>

partial_function (option) chunkArray_loop ::
  "'a list \<Rightarrow> int \<Rightarrow> 'a list list \<Rightarrow> ('a list list \<times> 'a list) option" where
  "chunkArray_loop srcArray chunkSize results =
     (if length srcArray \<noteq> 0
      then (case splice0 srcArray chunkSize of
              (removed, rest) \<Rightarrow> chunkArray_loop rest chunkSize (results @ [removed]))
      else Some (results, srcArray))"

definition chunkArray :: "'a list \<Rightarrow> int \<Rightarrow> ('a list list \<times> 'a list) option" where
  "chunkArray srcArray chunkSize = chunkArray_loop srcArray chunkSize []"

text \<open>
  What it means for \<open>cs\<close> to cut \<open>xs\<close> into chunks of size \<open>n\<close>: in order, nothing lost
  or repeated, every chunk but the last of length \<open>n\<close>, the last one not empty and not
  longer than \<open>n\<close>.
\<close>

definition chunked :: "nat \<Rightarrow> 'a list \<Rightarrow> 'a list list \<Rightarrow> bool" where
  "chunked n xs cs =
     (concat cs = xs \<and> list_all (\<lambda>c. length c = n) (butlast cs) \<and>
      (cs = [] \<or> (0 < length (last cs) \<and> length (last cs) \<le> n)))"

section \<open>The storage backend and the operations on it\<close>

text \<open>
  The value of a JavaScript expression, as far as the operations return one:
  \<^verbatim>\<open>Promise<void>\<close> resolves with \<^verbatim>\<open>undefined\<close>, a download URL is a string
  or \<^verbatim>\<open>null\<close>.
\<close>

datatype js_value =
  Undefined
  | Null
  | JNumber int
  | JString string
  | JObject "(string \<times> js_value) list"

text \<open>
  A thrown value: an error object with an optional \<^verbatim>\<open>statusCode\<close> (the SDK's
  \<^verbatim>\<open>RestError\<close> carries one, a plain \<^verbatim>\<open>Error\<close> does not), a name and a
  message. A rejected promise or a \<^verbatim>\<open>throw\<close> is the \<^term>\<open>Inl\<close> of a sum.
\<close>

record thrown =
  statusCode :: "int option"
  errorName :: string
  errorMessage :: string

definition newError :: "string \<Rightarrow> thrown" where
  "newError msg = \<lparr>statusCode = None, errorName = ''Error'', errorMessage = msg\<rparr>"

text \<open>\<^verbatim>\<open>`${error}`\<close>: \<^verbatim>\<open>Error.prototype.toString\<close>.\<close>

definition errorToString :: "thrown \<Rightarrow> string" where
  "errorToString e =
     (if errorName e = [] then errorMessage e
      else if errorMessage e = [] then errorName e
      else errorName e @ '': '' @ errorMessage e)"

record sasOptions =
  sasContainerName :: string
  sasBlobName :: string
  sasPermissions :: string

text \<open>
  The SDK objects the class talks to, as the answers they give during one call. \<open>'c\<close> is
  the type of a \<^verbatim>\<open>BlockBlobClient\<close>. \<^verbatim>\<open>listBlobsFlat\<close> yields the names
  of the blobs under a prefix, or throws while it is iterated; \<^verbatim>\<open>submitBatch\<close>
  takes the sub-requests of a \<^verbatim>\<open>BlobBatch\<close> (the URLs to delete) and answers with
  \<^verbatim>\<open>subResponsesFailedCount\<close>, or throws.
\<close>

record 'c backend =
  fromConnectionString :: "string \<Rightarrow> thrown option"
  containerClientFromUrl :: "string \<Rightarrow> thrown option"
  containerName :: string
  credentialIsAnonymous :: bool
  sasPermissionsDefined :: bool
  getBlockBlobClient :: "string \<Rightarrow> thrown + 'c"
  clientUrl :: "'c \<Rightarrow> string"
  clientDelete :: "'c \<Rightarrow> thrown + unit"
  generateSasUrl :: "'c \<Rightarrow> sasOptions \<Rightarrow> thrown + string"
  listBlobsFlat :: "string \<Rightarrow> thrown + string list"
  submitBatch :: "string list \<Rightarrow> thrown + nat"

text \<open>What a call does that its caller can observe besides the returned value.\<close>

datatype effect =
  SubmitBatch "string list"
  | TrackEvent string string

text \<open>A setting is truthy when it is present and not the empty string.\<close>

definition truthy :: "string option \<Rightarrow> bool" where
  "truthy v = (case v of None \<Rightarrow> False | Some s \<Rightarrow> s \<noteq> [])"

definition dq :: string where
  "dq = [CHR 0x22]"

definition sq :: string where
  "sq = [CHR 0x27]"

text \<open>
  \<^verbatim>\<open>initContainer\<close>. The promise of the first call is kept by
  \<^verbatim>\<open>initialize\<close> and returned to every later call, so each operation sees the same
  result, a rejected promise included.
\<close>

definition orEmpty :: "string option \<Rightarrow> string" where
  "orEmpty v = (case v of None \<Rightarrow> [] | Some s \<Rightarrow> s)"

definition initContainer :: "'c backend \<Rightarrow> (string \<rightharpoonup> string) \<Rightarrow> thrown + storage" where
  "initContainer be settings =
     (let blobStorageBasePath =
            (if truthy (settings ''blobStorageBasePath'')
             then orEmpty (settings ''blobStorageBasePath'') else []);
          base = normalizePath blobStorageBasePath;
          blobStorageConnectionString = settings ''blobStorageConnectionString''
      in if truthy blobStorageConnectionString then
           (let containerName = settings ''blobStorageContainer''
            in if \<not> truthy containerName
               then Inl (newError (''Setting '' @ dq @ ''blobStorageContainer'' @ dq @
                      '' required to initialize AzureBlobStorage.''))
               else (case fromConnectionString be (orEmpty blobStorageConnectionString) of
                       Some e \<Rightarrow> Inl e
                     | None \<Rightarrow> Inr \<lparr>basePath = base, hasBlobBatchClient = True\<rparr>))
         else
           (let blobStorageUrl = settings ''blobStorageUrl''
            in if truthy blobStorageUrl
               then (case containerClientFromUrl be (orEmpty blobStorageUrl) of
                       Some e \<Rightarrow> Inl e
                     | None \<Rightarrow> Inr \<lparr>basePath = base, hasBlobBatchClient = False\<rparr>)
               else Inl (newError (''Setting '' @ dq @ ''blobStorageConnectionString'' @ dq @
                      '' or '' @ dq @ ''blobStorageUrl'' @ dq @
                      '' required to initialize AzureBlobStorage.''))))"

definition initialize :: "'c backend \<Rightarrow> (string \<rightharpoonup> string) \<Rightarrow> thrown + storage" where
  "initialize be settings = initContainer be settings"

text \<open>
  \<^verbatim>\<open>getDownloadUrl\<close>, first the body of its \<^verbatim>\<open>try\<close> block. The SAS
  options carry two dates as well, which do not influence the control flow and are left
  out. In the \<^verbatim>\<open>catch\<close> block a thrown value whose \<^verbatim>\<open>statusCode\<close> is
  404 becomes the result \<^verbatim>\<open>null\<close>, any other is thrown again.
\<close>

definition getDownloadUrl_try :: "'c backend \<Rightarrow> string \<Rightarrow> thrown + js_value" where
  "getDownloadUrl_try be blobName =
     (case getBlockBlobClient be blobName of
        Inl e \<Rightarrow> Inl e
      | Inr blockBlobClient \<Rightarrow>
          if \<not> credentialIsAnonymous be \<and> sasPermissionsDefined be then
            (case generateSasUrl be blockBlobClient
                    \<lparr>sasContainerName = containerName be, sasBlobName = blobName,
                     sasPermissions = ''r''\<rparr> of
               Inl e \<Rightarrow> Inl e
             | Inr blobSasUrl \<Rightarrow> Inr (JString blobSasUrl))
          else Inr (JString (clientUrl be blockBlobClient)))"

definition getDownloadUrl :: "'c backend \<Rightarrow> (string \<rightharpoonup> string) \<Rightarrow> string \<Rightarrow> thrown + js_value" where
  "getDownloadUrl be settings blobKey =
     (case initialize be settings of
        Inl e \<Rightarrow> Inl e
      | Inr this \<Rightarrow>
          (let blobName = getFullKey this blobKey
           in case getDownloadUrl_try be blobName of
                Inl error \<Rightarrow> if statusCode error = Some 404 then Inr Null else Inl error
              | Inr url \<Rightarrow> Inr url))"

text \<open>
  \<^verbatim>\<open>deleteBlob\<close>: a 404 thrown inside the \<^verbatim>\<open>try\<close> block ends the call
  normally (``blob was already deleted''), any other value is thrown again.
\<close>

definition deleteBlob_try :: "'c backend \<Rightarrow> storage \<Rightarrow> string \<Rightarrow> thrown + unit" where
  "deleteBlob_try be this blobKey =
     (let fullBlobKey = getFullKey this blobKey
      in case getBlockBlobClient be fullBlobKey of
           Inl e \<Rightarrow> Inl e
         | Inr blockBlobClient \<Rightarrow> clientDelete be blockBlobClient)"

definition deleteBlob :: "'c backend \<Rightarrow> (string \<rightharpoonup> string) \<Rightarrow> string \<Rightarrow> thrown + js_value" where
  "deleteBlob be settings blobKey =
     (case initialize be settings of
        Inl e \<Rightarrow> Inl e
      | Inr this \<Rightarrow>
          (case deleteBlob_try be this blobKey of
             Inl error \<Rightarrow> if statusCode error = Some 404 then Inr Undefined else Inl error
           | Inr _ \<Rightarrow> Inr Undefined))"

text \<open>Decimal digits of a number, as a template literal prints it.\<close>

fun showNat :: "nat \<Rightarrow> string" where
  "showNat n = (if n < 10 then [''0123456789'' ! n] else showNat (n div 10) @ [''0123456789'' ! (n mod 10)])"

text \<open>
  \<^verbatim>\<open>processDeleteBatch\<close>. A \<^verbatim>\<open>BlobBatch\<close> is the SDK's request builder;
  it is modelled as the list of the URLs added to it, in order. The batch is submitted once,
  and a non-zero \<^verbatim>\<open>subResponsesFailedCount\<close> is written to the log and to nothing
  else. The result is the outcome of the promise (nothing is returned) and the effects in
  the order they happen.
\<close>

definition processDeleteBatch ::
  "'c backend \<Rightarrow> 'c list \<Rightarrow> string \<Rightarrow> (thrown + unit) \<times> effect list" where
  "processDeleteBatch be clients blobPrefix =
     (let batchDeleteRequest = foldl (\<lambda>batch client. batch @ [clientUrl be client]) [] clients
      in case submitBatch be batchDeleteRequest of
           Inl e \<Rightarrow> (Inl e, [SubmitBatch batchDeleteRequest])
         | Inr subResponsesFailedCount \<Rightarrow>
             if subResponsesFailedCount \<noteq> 0
             then (Inr (), [SubmitBatch batchDeleteRequest,
                     TrackEvent ''AzureBlobStorage''
                       (''Delete blob folder failed for '' @ sq @ blobPrefix @ sq @ '': '' @
                        showNat subResponsesFailedCount @ '' items.'')])
             else (Inr (), [SubmitBatch batchDeleteRequest]))"

definition listAllBlobItems :: "'c backend \<Rightarrow> string \<Rightarrow> thrown + string list" where
  "listAllBlobItems be prefix = listBlobsFlat be prefix"

text \<open>\<^verbatim>\<open>allBlobs.map(item => this.containerClient.getBlockBlobClient(item.name))\<close>.\<close>

fun mapGetBlockBlobClient :: "'c backend \<Rightarrow> string list \<Rightarrow> thrown + 'c list" where
  "mapGetBlockBlobClient be [] = Inr []"
| "mapGetBlockBlobClient be (itemName # items) =
     (case getBlockBlobClient be itemName of
        Inl e \<Rightarrow> Inl e
      | Inr client \<Rightarrow>
          (case mapGetBlockBlobClient be items of
             Inl e \<Rightarrow> Inl e
           | Inr clients \<Rightarrow> Inr (client # clients)))"

text \<open>
  What a call of \<^verbatim>\<open>deleteBlobFolder\<close> amounts to for its caller: the settled value
  of the returned promise, the effects that happened before it settled, and the groups for
  which \<^verbatim>\<open>processDeleteBatch\<close> was started by
  \<^verbatim>\<open>chunks.map(async chunk => await this.processDeleteBatch(chunk, blobPrefix))\<close>.
  The array of promises that this \<^verbatim>\<open>map\<close> builds is dropped: nothing awaits it, so
  the call returns before any of these groups is submitted, and what happens to them
  reaches neither the \<^verbatim>\<open>catch\<close> block nor the caller.
\<close>

record 'c outcome =
  returned :: "thrown + js_value"
  effects :: "effect list"
  detached :: "'c list list"

text \<open>The body of the \<^verbatim>\<open>try\<close> block, after the clients have been made.\<close>

definition deleteBlobFolder_try :: "'c backend \<Rightarrow> 'c list \<Rightarrow> string \<Rightarrow> 'c outcome option" where
  "deleteBlobFolder_try be clients blobPrefix =
     (if length clients > 0 then
        (if length clients < 256 then
           (case processDeleteBatch be clients blobPrefix of
              (Inl e, effs) \<Rightarrow> Some \<lparr>returned = Inl e, effects = effs, detached = []\<rparr>
            | (Inr _, effs) \<Rightarrow> Some \<lparr>returned = Inr Undefined, effects = effs, detached = []\<rparr>)
         else
           (case chunkArray clients 250 of
              None \<Rightarrow> None
            | Some (chunks, _) \<Rightarrow>
                Some \<lparr>returned = Inr Undefined, effects = [], detached = chunks\<rparr>))
      else Some \<lparr>returned = Inr Undefined, effects = [], detached = []\<rparr>)"

text \<open>
  \<^verbatim>\<open>deleteBlobFolder\<close>. A value thrown inside the \<^verbatim>\<open>try\<close> block is wrapped
  in a new \<^verbatim>\<open>Error\<close>; one thrown by the initialisation or by the listing is not.
\<close>

definition deleteBlobFolder :: "'c backend \<Rightarrow> (string \<rightharpoonup> string) \<Rightarrow> string \<Rightarrow> 'c outcome option" where
  "deleteBlobFolder be settings blobPrefix =
     (case initialize be settings of
        Inl e \<Rightarrow> Some \<lparr>returned = Inl e, effects = [], detached = []\<rparr>
      | Inr this \<Rightarrow>
          if \<not> hasBlobBatchClient this then
            Some \<lparr>returned = Inl (newError
              ''deleteBlobFolder works only with client created from the blob storage connection string''),
              effects = [], detached = []\<rparr>
          else
            (let fullBlobPrefix = getFullKey this blobPrefix
             in case listAllBlobItems be fullBlobPrefix of
                  Inl e \<Rightarrow> Some \<lparr>returned = Inl e, effects = [], detached = []\<rparr>
                | Inr allBlobs \<Rightarrow>
                    (case (case mapGetBlockBlobClient be allBlobs of
                             Inl e \<Rightarrow> Some \<lparr>returned = Inl e, effects = [], detached = []\<rparr>
                           | Inr clients \<Rightarrow> deleteBlobFolder_try be clients blobPrefix) of
                       None \<Rightarrow> None
                     | Some out \<Rightarrow>
                         (case returned out of
                            Inl error \<Rightarrow>
                              Some (out\<lparr>returned := Inl (newError
                                (''Unable to delete blobs in '' @ blobPrefix @ ''. Error: '' @
                                 errorToString error))\<rparr>)
                          | Inr _ \<Rightarrow> Some out))))"

text \<open>
  The groups started and left behind run on their own: each is one
  \<^verbatim>\<open>processDeleteBatch\<close>, whose outcome no other group and no caller sees. The
  order in which their submissions reach the backend is decided by the event loop and the
  SDK; the list below is in the order of the groups.
\<close>

definition runDetached ::
  "'c backend \<Rightarrow> 'c list list \<Rightarrow> string \<Rightarrow> ((thrown + unit) \<times> effect list) list" where
  "runDetached be groups blobPrefix = map (\<lambda>chunk. processDeleteBatch be chunk blobPrefix) groups"

text \<open>
  Every batch that a call causes to be submitted: those awaited before the call returns,
  then those of the groups left behind, in the order of the groups.
\<close>

fun submitted :: "effect list \<Rightarrow> string list list" where
  "submitted [] = []"
| "submitted (SubmitBatch urls # es) = urls # submitted es"
| "submitted (TrackEvent _ _ # es) = submitted es"

definition batchCalls :: "'c backend \<Rightarrow> 'c outcome \<Rightarrow> string \<Rightarrow> string list list" where
  "batchCalls be out blobPrefix =
     submitted (effects out @ concat (map snd (runDetached be (detached out) blobPrefix)))"

text \<open>
  The outcome that the specification writes as
  \<^verbatim>\<open>BatchOutcome { totalRequested, totalFailed }\<close>, as a JavaScript object. The
  code has no such type; the definition only serves to say what the code does not return.
\<close>

definition batchOutcome :: "int \<Rightarrow> int \<Rightarrow> js_value" where
  "batchOutcome totalRequested totalFailed =
     JObject [(''totalRequested'', JNumber totalRequested), (''totalFailed'', JNumber totalFailed)]"

section \<open>Concrete settings and backends\<close>

text \<open>
  Settings with a connection string and a container name and no base path, and a backend
  over them: a client is the name of its blob, the listing under a prefix yields \<open>k\<close>
  names, and \<open>answer\<close> is what the batch endpoint says.
\<close>

definition exampleSettings :: "string \<rightharpoonup> string" where
  "exampleSettings =
     [''blobStorageConnectionString'' \<mapsto> ''UseDevelopmentStorage=true'',
      ''blobStorageContainer'' \<mapsto> ''content'']"

definition exampleUrl :: "string \<Rightarrow> string" where
  "exampleUrl blobName = ''http://127.0.0.1:10000/devstoreaccount1/content/'' @ blobName"

definition exampleNames :: "nat \<Rightarrow> string \<Rightarrow> string list" where
  "exampleNames k prefix = map (\<lambda>i. prefix @ ''/'' @ showNat i) [0..<k]"

definition exampleBackend :: "nat \<Rightarrow> (string list \<Rightarrow> thrown + nat) \<Rightarrow> string backend" where
  "exampleBackend k answer =
     \<lparr>fromConnectionString = (\<lambda>_. None),
      containerClientFromUrl = (\<lambda>_. None),
      containerName = ''content'',
      credentialIsAnonymous = False,
      sasPermissionsDefined = True,
      getBlockBlobClient = (\<lambda>blobName. Inr blobName),
      clientUrl = exampleUrl,
      clientDelete = (\<lambda>_. Inr ()),
      generateSasUrl = (\<lambda>client _. Inr (exampleUrl client @ ''?sv=2020&sp=r'')),
      listBlobsFlat = (\<lambda>prefix. Inr (exampleNames k prefix)),
      submitBatch = answer\<rparr>"


definition transportError :: thrown where
  "transportError = \<lparr>statusCode = None, errorName = ''RestError'',
                      errorMessage = ''connect ECONNREFUSED 127.0.0.1:10000''\<rparr>"

text \<open>Three batch endpoints: all deleted, one sub-request failed, not reachable.\<close>

definition allDeleted :: "string list \<Rightarrow> thrown + nat" where
  "allDeleted batch = Inr 0"

definition oneFailed :: "string list \<Rightarrow> thrown + nat" where
  "oneFailed batch = Inr 1"

definition unreachable :: "string list \<Rightarrow> thrown + nat" where
  "unreachable batch = Inl transportError"


section \<open>Properties of \<open>chunkArray\<close>\<close>

declare showNat.simps [simp del]

lemma chunkArray_loop_positive:
  assumes "1 \<le> n"
  shows "\<exists>cs. chunkArray_loop xs n results = Some (results @ cs, []) \<and> chunked (nat n) xs cs"
proof (induction "length xs" arbitrary: xs results rule: less_induct)
  case less
  show ?case
  proof (cases "xs = []")
    case True
    then show ?thesis
      by (subst chunkArray_loop.simps) (simp add: chunked_def)
  next
    case False
    let ?t = "take (nat n) xs" and ?d = "drop (nat n) xs"
    from assms False have shorter: "length ?d < length xs" by simp
    from less [OF shorter, of "results @ [?t]"] obtain cs where
      run: "chunkArray_loop ?d n (results @ [?t]) = Some ((results @ [?t]) @ cs, [])"
      and ch: "chunked (nat n) ?d cs" by blast
    from assms False have tne: "?t \<noteq> []" by simp
    have step: "chunkArray_loop xs n results = chunkArray_loop ?d n (results @ [?t])"
      using False by (subst chunkArray_loop.simps) (simp add: splice0_def)
    have "chunked (nat n) xs (?t # cs)"
    proof (cases "cs = []")
      case True
      with ch have "?d = []" by (simp add: chunked_def)
      with True tne show ?thesis by (simp add: chunked_def)
    next
      case cne: False
      with ch have "?d \<noteq> []" by (auto simp: chunked_def)
      then have "length ?t = nat n" by simp
      with ch cne show ?thesis by (auto simp: chunked_def)
    qed
    with run step show ?thesis by auto
  qed
qed



lemma chunkArray_positive:
  "1 \<le> n \<Longrightarrow> \<exists>cs. chunkArray xs n = Some (cs, []) \<and> chunked (nat n) xs cs"
  using chunkArray_loop_positive [of n xs "[]"] by (simp add: chunkArray_def)

text \<open>
  C10. \<^verbatim>\<open>chunkArray\<close> consumes its argument: for every array with contents \<open>xs\<close> and
  every chunk size \<open>n \<ge> 1\<close> the call returns, the array is empty afterwards, the chunks
  put together in order are \<open>xs\<close>, and every chunk has length exactly \<open>n\<close> except possibly
  the last (which is not empty and not longer than \<open>n\<close>).
\<close>

theorem chunkArray_consumes_source:
  assumes "1 \<le> n"
  shows "\<exists>cs srcAfter. chunkArray xs n = Some (cs, srcAfter) \<and> length srcAfter = 0 \<and>
           concat cs = xs \<and> list_all (\<lambda>c. length c = nat n) (butlast cs) \<and>
           (cs = [] \<or> (0 < length (last cs) \<and> length (last cs) \<le> nat n))"
proof -
  from chunkArray_positive [OF assms, of xs] obtain cs where
    "chunkArray xs n = Some (cs, [])" and "chunked (nat n) xs cs" by blast
  then show ?thesis by (auto simp: chunked_def)
qed

theorem chunkArray_consumes_source_witness:
  "(1::int) \<le> 2 \<and>
   (\<exists>cs srcAfter. chunkArray ''abcde'' 2 = Some (cs, srcAfter) \<and> length srcAfter = 0 \<and>
      concat cs = ''abcde'' \<and> list_all (\<lambda>c. length c = nat 2) (butlast cs) \<and>
      (cs = [] \<or> (0 < length (last cs) \<and> length (last cs) \<le> nat 2))) \<and>
   chunkArray ''abcde'' 2 = Some ([''ab'', ''cd'', ''e''], [])"
proof -
  have h: "(1::int) \<le> 2" by simp
  have "chunkArray ''abcde'' 2 = Some ([''ab'', ''cd'', ''e''], [])"
    by (simp add: chunkArray_def chunkArray_loop.simps splice0_def)
  with h chunkArray_consumes_source [OF h, of "''abcde''"] show ?thesis by blast
qed

section \<open>Properties of the bulk delete\<close>

text \<open>The batch built by \<^verbatim>\<open>processDeleteBatch\<close> holds the URLs of its clients, in order.\<close>

lemma foldl_batch:
  "foldl (\<lambda>batch client. batch @ [f client]) acc clients = acc @ map f clients"
  by (induction clients arbitrary: acc) auto

lemma submitted_processDeleteBatch:
  "submitted (snd (processDeleteBatch be g p)) = [map (clientUrl be) g]"
  by (simp add: processDeleteBatch_def foldl_batch Let_def split: sum.splits)

lemma submitted_append: "submitted (xs @ ys) = submitted xs @ submitted ys"
  by (induction xs rule: submitted.induct) simp_all

lemma submitted_runDetached:
  "submitted (concat (map snd (runDetached be groups p))) = map (map (clientUrl be)) groups"
  by (induction groups) (simp_all add: runDetached_def submitted_append submitted_processDeleteBatch)

lemma processDeleteBatch_result:
  "processDeleteBatch be g p =
     (case submitBatch be (map (clientUrl be) g) of
        Inl e \<Rightarrow> (Inl e, [SubmitBatch (map (clientUrl be) g)])
      | Inr k \<Rightarrow> (Inr (), SubmitBatch (map (clientUrl be) g) #
           (if k \<noteq> 0 then [TrackEvent ''AzureBlobStorage''
              (''Delete blob folder failed for '' @ sq @ p @ sq @ '': '' @ showNat k @ '' items.'')]
            else [])))"
  by (simp add: processDeleteBatch_def foldl_batch Let_def split: sum.splits)

lemma chunkArray_two:
  assumes "n < length xs" "length xs \<le> 2 * n"
  shows "chunkArray xs (int n) = Some ([take n xs, drop n xs], [])"
proof -
  from assms have ne: "xs \<noteq> []" "drop n xs \<noteq> []" "drop n (drop n xs) = []" by auto
  have "chunkArray xs (int n) = chunkArray_loop (drop n xs) (int n) [take n xs]"
    using ne by (simp add: chunkArray_def chunkArray_loop.simps [of xs] splice0_def)
  also have "\<dots> = chunkArray_loop [] (int n) [take n xs, take n (drop n xs)]"
    using ne by (simp add: chunkArray_loop.simps [of "drop n xs"] splice0_def)
  also have "\<dots> = Some ([take n xs, take n (drop n xs)], [])"
    by (simp add: chunkArray_loop.simps [of "[]"])
  finally show ?thesis using assms by simp
qed

text \<open>
  When the initialisation, the listing and the making of the clients succeed,
  \<^verbatim>\<open>deleteBlobFolder\<close> is its \<^verbatim>\<open>try\<close> block with the
  \<^verbatim>\<open>catch\<close> around it.
\<close>

lemma deleteBlobFolder_reaches:
  assumes "initialize be settings = Inr this" "hasBlobBatchClient this"
    "listAllBlobItems be (getFullKey this blobPrefix) = Inr allBlobs"
    "mapGetBlockBlobClient be allBlobs = Inr clients"
  shows "deleteBlobFolder be settings blobPrefix =
     (case deleteBlobFolder_try be clients blobPrefix of
        None \<Rightarrow> None
      | Some out \<Rightarrow>
          (case returned out of
             Inl error \<Rightarrow> Some (out\<lparr>returned := Inl (newError
                 (''Unable to delete blobs in '' @ blobPrefix @ ''. Error: '' @ errorToString error))\<rparr>)
           | Inr _ \<Rightarrow> Some out))"
  using assms by (simp add: deleteBlobFolder_def Let_def)

text \<open>The constant chunk size 250 makes every call return.\<close>

lemma deleteBlobFolder_try_total: "\<exists>out. deleteBlobFolder_try be clients p = Some out"
proof -
  obtain cs where "chunkArray clients 250 = Some (cs, [])"
    using chunkArray_positive [of 250 clients] by auto
  then show ?thesis
    by (auto simp: deleteBlobFolder_try_def split: prod.splits sum.splits)
qed


text \<open>The concrete backends.\<close>

lemma example_initialize:
  "initialize (exampleBackend k a) exampleSettings = Inr \<lparr>basePath = [], hasBlobBatchClient = True\<rparr>"
  by (simp add: initialize_def initContainer_def exampleBackend_def exampleSettings_def truthy_def
      orEmpty_def normalizePath_def replaceBackslashes_def startsWith_def endsWith_def Let_def)

lemma example_clients:
  "mapGetBlockBlobClient (exampleBackend k a) names = Inr names"
  by (induction names) (simp_all add: exampleBackend_def)

lemma example_listing:
  "listAllBlobItems (exampleBackend k a) prefix = Inr (exampleNames k prefix)"
  by (simp add: listAllBlobItems_def exampleBackend_def)

lemma example_clientUrl: "clientUrl (exampleBackend k a) = exampleUrl"
  by (simp add: exampleBackend_def)

lemma example_submitBatch: "submitBatch (exampleBackend k a) = a"
  by (simp add: exampleBackend_def)

lemma example_key:
  "getFullKey \<lparr>basePath = [], hasBlobBatchClient = True\<rparr> ''media'' = ''/media''"
  by (simp add: getFullKey_def normalizePath_def replaceBackslashes_def startsWith_def
      endsWith_def backslash_def slash_def)

lemma example_names_0: "exampleNames 0 p = []"
  by (simp add: exampleNames_def)

lemma example_names_3: "exampleNames 3 p = [p @ ''/0'', p @ ''/1'', p @ ''/2'']"
  by (simp add: exampleNames_def showNat.simps upt_rec)

lemma example_names_2: "exampleNames 2 p = [p @ ''/0'', p @ ''/1'']"
  by (simp add: exampleNames_def showNat.simps upt_rec)

lemma exampleNames_length: "length (exampleNames k p) = k" by (simp add: exampleNames_def)

lemma chunked_bounds:
  assumes "chunked n xs cs" "0 < n"
  shows "list_all (\<lambda>g. 0 < length g \<and> length g \<le> n) cs"
proof (cases "cs = []")
  case True then show ?thesis by simp
next
  case False
  let ?P = "\<lambda>g. 0 < length g \<and> length g \<le> n"
  from assms have "list_all ?P (butlast cs)" by (auto simp: chunked_def list_all_iff)
  moreover from assms False have "?P (last cs)" by (simp add: chunked_def)
  ultimately have "list_all ?P (butlast cs @ [last cs])" by (simp only: list_all_append list.pred_inject simp_thms)
  with False show ?thesis by (metis append_butlast_last_id)
qed

text \<open>
  The awaited path: with fewer than 256 blobs the single group is awaited, and a submission
  that throws reaches the caller, wrapped by the \<^verbatim>\<open>catch\<close> block, after
  exactly one submission.
\<close>

lemma single_group_error_propagates:
  assumes "initialize be settings = Inr this" and "hasBlobBatchClient this"
    and "listAllBlobItems be (getFullKey this blobPrefix) = Inr allBlobs"
    and "mapGetBlockBlobClient be allBlobs = Inr clients"
    and "clients \<noteq> []" and "length clients < 256"
    and "submitBatch be (map (clientUrl be) clients) = Inl e"
  shows "deleteBlobFolder be settings blobPrefix =
           Some \<lparr>returned = Inl (newError (''Unable to delete blobs in '' @ blobPrefix @
                    ''. Error: '' @ errorToString e)),
                 effects = [SubmitBatch (map (clientUrl be) clients)], detached = []\<rparr>"
  using assms(5-7)
  by (simp add: deleteBlobFolder_reaches [OF assms(1-4)] deleteBlobFolder_try_def
      processDeleteBatch_result)

text \<open>
  C6. For a listing of exactly 300 blobs the bulk delete causes exactly two batch
  submissions, the first group holding the first 250 clients and the second the remaining
  50. (Both groups are started by the unawaited \<^verbatim>\<open>map\<close>; first and second are
  the order of the groups.)
\<close>

theorem folder_of_300:
  assumes "initialize be settings = Inr this" and "hasBlobBatchClient this"
    and "listAllBlobItems be (getFullKey this blobPrefix) = Inr allBlobs"
    and "mapGetBlockBlobClient be allBlobs = Inr clients"
    and "length clients = 300"
  shows "\<exists>out. deleteBlobFolder be settings blobPrefix = Some out \<and>
           batchCalls be out blobPrefix =
             [map (clientUrl be) (take 250 clients), map (clientUrl be) (drop 250 clients)] \<and>
           map length (batchCalls be out blobPrefix) = [250, 50]"
proof -
  from assms(5) have "chunkArray clients (int 250) = Some ([take 250 clients, drop 250 clients], [])"
    by (intro chunkArray_two) simp_all
  then have body: "deleteBlobFolder_try be clients blobPrefix =
      Some \<lparr>returned = Inr Undefined, effects = [], detached = [take 250 clients, drop 250 clients]\<rparr>"
    using assms(5) by (simp add: deleteBlobFolder_try_def)
  have "deleteBlobFolder be settings blobPrefix =
      Some \<lparr>returned = Inr Undefined, effects = [], detached = [take 250 clients, drop 250 clients]\<rparr>"
    by (simp add: deleteBlobFolder_reaches [OF assms(1-4)] body)
  moreover have "batchCalls be \<lparr>returned = Inr Undefined, effects = [],
       detached = [take 250 clients, drop 250 clients]\<rparr> blobPrefix =
       [map (clientUrl be) (take 250 clients), map (clientUrl be) (drop 250 clients)]"
    by (simp add: batchCalls_def submitted_runDetached)
  ultimately show ?thesis using assms(5) by simp
qed


theorem folder_of_300_witness:
  "initialize (exampleBackend 300 allDeleted) exampleSettings =
     Inr \<lparr>basePath = [], hasBlobBatchClient = True\<rparr> \<and>
   hasBlobBatchClient \<lparr>basePath = [], hasBlobBatchClient = True\<rparr> \<and>
   listAllBlobItems (exampleBackend 300 allDeleted)
     (getFullKey \<lparr>basePath = [], hasBlobBatchClient = True\<rparr> ''media'') = Inr (exampleNames 300 ''/media'') \<and>
   mapGetBlockBlobClient (exampleBackend 300 allDeleted) (exampleNames 300 ''/media'') =
     Inr (exampleNames 300 ''/media'') \<and>
   length (exampleNames 300 ''/media'') = 300 \<and>
   (\<exists>out. deleteBlobFolder (exampleBackend 300 allDeleted) exampleSettings ''media'' = Some out \<and>
      batchCalls (exampleBackend 300 allDeleted) out ''media'' =
        [map (clientUrl (exampleBackend 300 allDeleted)) (take 250 (exampleNames 300 ''/media'')),
         map (clientUrl (exampleBackend 300 allDeleted)) (drop 250 (exampleNames 300 ''/media''))] \<and>
      map length (batchCalls (exampleBackend 300 allDeleted) out ''media'') = [250, 50])"
proof -
  let ?be = "exampleBackend 300 allDeleted"
  let ?st = "\<lparr>basePath = [], hasBlobBatchClient = True\<rparr>"
  have key: "getFullKey ?st ''media'' = ''/media''"
    by (simp add: getFullKey_def normalizePath_def replaceBackslashes_def startsWith_def
        endsWith_def backslash_def slash_def)
  have h1: "initialize ?be exampleSettings = Inr ?st" by (rule example_initialize)
  have h2: "hasBlobBatchClient ?st" by simp
  have h3: "listAllBlobItems ?be (getFullKey ?st ''media'') = Inr (exampleNames 300 ''/media'')"
    by (simp only: key example_listing)
  have h4: "mapGetBlockBlobClient ?be (exampleNames 300 ''/media'') = Inr (exampleNames 300 ''/media'')"
    by (rule example_clients)
  have h5: "length (exampleNames 300 ''/media'') = 300" by (rule exampleNames_length)
  from folder_of_300 [OF h1 h2 h3 h4 h5] h1 h2 h3 h4 h5 show ?thesis by blast
qed

text \<open>
  C3, amended. The bulk delete takes no batch size. For every non-empty listing it forms
  ordered groups that put together are the listing: the whole listing as one group when it
  has fewer than 256 blobs, and otherwise groups of exactly 250 with a last group of 1 to 250.
  No group is empty or has more than 255 blobs, and each group is submitted in one batch of
  its own.
\<close>

theorem groups_of_folder:
  assumes "initialize be settings = Inr this" and "hasBlobBatchClient this"
    and "listAllBlobItems be (getFullKey this blobPrefix) = Inr allBlobs"
    and "mapGetBlockBlobClient be allBlobs = Inr clients"
    and "clients \<noteq> []"
  shows "\<exists>out groups. deleteBlobFolder be settings blobPrefix = Some out \<and>
           batchCalls be out blobPrefix = map (map (clientUrl be)) groups \<and>
           concat groups = clients \<and>
           list_all (\<lambda>g. 0 < length g \<and> length g \<le> 255) groups \<and>
           (if length clients < 256 then groups = [clients]
            else detached out = groups \<and> chunked 250 clients groups)"
proof (cases "length clients < 256")
  case True
  obtain r effs where p: "processDeleteBatch be clients blobPrefix = (r, effs)" by force
  with submitted_processDeleteBatch [of be clients blobPrefix]
  have sub: "submitted effs = [map (clientUrl be) clients]" by simp
  from True assms(5) p obtain out where
    t: "deleteBlobFolder_try be clients blobPrefix = Some out" "effects out = effs" "detached out = []"
    by (cases r) (auto simp: deleteBlobFolder_try_def)
  then obtain out' where
    o: "deleteBlobFolder be settings blobPrefix = Some out'" "effects out' = effs" "detached out' = []"
    by (cases "returned out") (auto simp: deleteBlobFolder_reaches [OF assms(1-4)])
  have "batchCalls be out' blobPrefix = map (map (clientUrl be)) [clients]"
    using o sub by (simp add: batchCalls_def runDetached_def)
  with o True assms(5) show ?thesis by (intro exI [of _ out'] exI [of _ "[clients]"]) simp
next
  case False
  from chunkArray_positive [of 250 clients] obtain cs where
    c: "chunkArray clients 250 = Some (cs, [])" and ch: "chunked 250 clients cs" by auto
  let ?out = "\<lparr>returned = Inr Undefined, effects = [], detached = cs\<rparr>"
  from False assms(5) c have "deleteBlobFolder_try be clients blobPrefix = Some ?out"
    by (simp add: deleteBlobFolder_try_def)
  then have o: "deleteBlobFolder be settings blobPrefix = Some ?out"
    by (simp add: deleteBlobFolder_reaches [OF assms(1-4)])
  have b: "batchCalls be ?out blobPrefix = map (map (clientUrl be)) cs"
    by (simp add: batchCalls_def submitted_runDetached)
  from chunked_bounds [OF ch] have "list_all (\<lambda>g. 0 < length g \<and> length g \<le> 250) cs" by simp
  then have "list_all (\<lambda>g. 0 < length g \<and> length g \<le> 255) cs"
    by (auto simp: list_all_iff)
  with o b ch False show ?thesis
    by (intro exI [of _ ?out] exI [of _ cs]) (simp add: chunked_def)
qed

theorem groups_of_folder_witness:
  "initialize (exampleBackend 2 allDeleted) exampleSettings =
     Inr \<lparr>basePath = [], hasBlobBatchClient = True\<rparr> \<and>
   hasBlobBatchClient \<lparr>basePath = [], hasBlobBatchClient = True\<rparr> \<and>
   listAllBlobItems (exampleBackend 2 allDeleted)
     (getFullKey \<lparr>basePath = [], hasBlobBatchClient = True\<rparr> ''media'') =
     Inr [''/media/0'', ''/media/1''] \<and>
   mapGetBlockBlobClient (exampleBackend 2 allDeleted) [''/media/0'', ''/media/1''] =
     Inr [''/media/0'', ''/media/1''] \<and>
   [''/media/0'', ''/media/1''] \<noteq> [] \<and>
   (\<exists>out groups. deleteBlobFolder (exampleBackend 2 allDeleted) exampleSettings ''media'' = Some out \<and>
      batchCalls (exampleBackend 2 allDeleted) out ''media'' =
        map (map (clientUrl (exampleBackend 2 allDeleted))) groups \<and>
      concat groups = [''/media/0'', ''/media/1''] \<and>
      list_all (\<lambda>g. 0 < length g \<and> length g \<le> 255) groups \<and>
      (if length [''/media/0'', ''/media/1''] < 256 then groups = [[''/media/0'', ''/media/1'']]
       else detached out = groups \<and> chunked 250 [''/media/0'', ''/media/1''] groups))"
proof -
  let ?be = "exampleBackend 2 allDeleted"
  let ?st = "\<lparr>basePath = [], hasBlobBatchClient = True\<rparr>"
  let ?names = "[''/media/0'', ''/media/1'']"
  have h1: "initialize ?be exampleSettings = Inr ?st" by (rule example_initialize)
  have h2: "hasBlobBatchClient ?st" by simp
  have h3: "listAllBlobItems ?be (getFullKey ?st ''media'') = Inr ?names"
    by (simp add: example_key example_listing example_names_2)
  have h4: "mapGetBlockBlobClient ?be ?names = Inr ?names" by (rule example_clients)
  have h5: "?names \<noteq> []" by simp
  from groups_of_folder [OF h1 h2 h3 h4 h5] h1 h2 h3 h4 h5 show ?thesis by blast
qed

text \<open>
  C3 as stated fails for the ceiling of 250 that the code uses: a listing of 255 blobs is
  submitted as one batch of 255.
\<close>

theorem groups_counterexample:
  "deleteBlobFolder (exampleBackend 255 allDeleted) exampleSettings ''media'' =
     Some \<lparr>returned = Inr Undefined,
           effects = [SubmitBatch (map exampleUrl (exampleNames 255 ''/media''))],
           detached = []\<rparr> \<and>
   \<not> length (map exampleUrl (exampleNames 255 ''/media'')) \<le> 250"
proof -
  let ?be = "exampleBackend 255 allDeleted"
  let ?st = "\<lparr>basePath = [], hasBlobBatchClient = True\<rparr>"
  have h1: "initialize ?be exampleSettings = Inr ?st" by (rule example_initialize)
  have h2: "hasBlobBatchClient ?st" by simp
  have h3: "listAllBlobItems ?be (getFullKey ?st ''media'') = Inr (exampleNames 255 ''/media'')"
    by (simp only: example_key example_listing)
  have h4: "mapGetBlockBlobClient ?be (exampleNames 255 ''/media'') = Inr (exampleNames 255 ''/media'')"
    by (rule example_clients)
  have u: "clientUrl ?be = exampleUrl" "submitBatch ?be = allDeleted"
    by (simp_all only: example_clientUrl example_submitBatch)
  have "deleteBlobFolder_try ?be (exampleNames 255 ''/media'') ''media'' =
     Some \<lparr>returned = Inr Undefined,
           effects = [SubmitBatch (map exampleUrl (exampleNames 255 ''/media''))],
           detached = []\<rparr>"
    by (simp add: deleteBlobFolder_try_def exampleNames_length processDeleteBatch_result u allDeleted_def)
  then show ?thesis
    by (simp add: deleteBlobFolder_reaches [OF h1 h2 h3 h4] exampleNames_length)
qed

text \<open>
  C2, amended. The bulk delete returns no value: the call returns, and when it completes
  normally its result is \<^verbatim>\<open>undefined\<close>; neither the number of blobs nor a
  failure count is handed to the caller. For a listing of 1 to 255 blobs the single batch is
  awaited, and the failure count that the backend reports is written to the log, in one
  event, when it is not zero.
\<close>

theorem failure_count_only_logged:
  assumes "initialize be settings = Inr this" and "hasBlobBatchClient this"
    and "listAllBlobItems be (getFullKey this blobPrefix) = Inr allBlobs"
    and "mapGetBlockBlobClient be allBlobs = Inr clients"
  shows "\<exists>out. deleteBlobFolder be settings blobPrefix = Some out \<and>
           (returned out = Inr Undefined \<or> (\<exists>e. returned out = Inl e)) \<and>
           (\<forall>failed. clients \<noteq> [] \<and> length clients < 256 \<and>
               submitBatch be (map (clientUrl be) clients) = Inr failed \<longrightarrow>
              out = \<lparr>returned = Inr Undefined,
                     effects = SubmitBatch (map (clientUrl be) clients) #
                       (if failed \<noteq> 0
                        then [TrackEvent ''AzureBlobStorage''
                                (''Delete blob folder failed for '' @ sq @ blobPrefix @ sq @ '': '' @
                                 showNat failed @ '' items.'')]
                        else []),
                     detached = []\<rparr>)"
proof -
  obtain t where t: "deleteBlobFolder_try be clients blobPrefix = Some t"
    using deleteBlobFolder_try_total by blast
  have r: "returned t = Inr Undefined \<or> (\<exists>e. returned t = Inl e)"
    using t by (auto simp: deleteBlobFolder_try_def split: if_splits prod.splits sum.splits option.splits)
  show ?thesis
  proof (cases "returned t")
    case (Inl e)
    with t show ?thesis
      by (auto simp: deleteBlobFolder_reaches [OF assms(1-4)] deleteBlobFolder_try_def
          processDeleteBatch_result split: if_splits)
  next
    case (Inr v)
    with t r show ?thesis
      by (auto simp: deleteBlobFolder_reaches [OF assms(1-4)] deleteBlobFolder_try_def
          processDeleteBatch_result split: if_splits)
  qed
qed

theorem failure_count_only_logged_witness:
  "initialize (exampleBackend 2 oneFailed) exampleSettings =
     Inr \<lparr>basePath = [], hasBlobBatchClient = True\<rparr> \<and>
   hasBlobBatchClient \<lparr>basePath = [], hasBlobBatchClient = True\<rparr> \<and>
   listAllBlobItems (exampleBackend 2 oneFailed)
     (getFullKey \<lparr>basePath = [], hasBlobBatchClient = True\<rparr> ''media'') =
     Inr [''/media/0'', ''/media/1''] \<and>
   mapGetBlockBlobClient (exampleBackend 2 oneFailed) [''/media/0'', ''/media/1''] =
     Inr [''/media/0'', ''/media/1''] \<and>
   submitBatch (exampleBackend 2 oneFailed)
     (map (clientUrl (exampleBackend 2 oneFailed)) [''/media/0'', ''/media/1'']) = Inr 1 \<and>
   deleteBlobFolder (exampleBackend 2 oneFailed) exampleSettings ''media'' =
     Some \<lparr>returned = Inr Undefined,
           effects = [SubmitBatch [exampleUrl ''/media/0'', exampleUrl ''/media/1''],
                      TrackEvent ''AzureBlobStorage''
                        (''Delete blob folder failed for '' @ sq @ ''media'' @ sq @ '': 1 items.'')],
           detached = []\<rparr>"
proof -
  let ?be = "exampleBackend 2 oneFailed"
  let ?st = "\<lparr>basePath = [], hasBlobBatchClient = True\<rparr>"
  let ?names = "[''/media/0'', ''/media/1'']"
  have h1: "initialize ?be exampleSettings = Inr ?st" by (rule example_initialize)
  have h2: "hasBlobBatchClient ?st" by simp
  have h3: "listAllBlobItems ?be (getFullKey ?st ''media'') = Inr ?names"
    by (simp add: example_key example_listing example_names_2)
  have h4: "mapGetBlockBlobClient ?be ?names = Inr ?names" by (rule example_clients)
  have h5: "submitBatch ?be (map (clientUrl ?be) ?names) = Inr 1"
    by (simp add: example_submitBatch oneFailed_def)
  have u: "clientUrl ?be = exampleUrl" by (rule example_clientUrl)
  from failure_count_only_logged [OF h1 h2 h3 h4] obtain out where
    o: "deleteBlobFolder ?be exampleSettings ''media'' = Some out"
    and l: "\<forall>failed. ?names \<noteq> [] \<and> length ?names < 256 \<and>
               submitBatch ?be (map (clientUrl ?be) ?names) = Inr failed \<longrightarrow>
              out = \<lparr>returned = Inr Undefined,
                     effects = SubmitBatch (map (clientUrl ?be) ?names) #
                       (if failed \<noteq> 0
                        then [TrackEvent ''AzureBlobStorage''
                                (''Delete blob folder failed for '' @ sq @ ''media'' @ sq @ '': '' @
                                 showNat failed @ '' items.'')]
                        else []),
                     detached = []\<rparr>" by blast
  from l h5 have "out = \<lparr>returned = Inr Undefined,
                     effects = SubmitBatch (map (clientUrl ?be) ?names) #
                       (if (1::nat) \<noteq> 0
                        then [TrackEvent ''AzureBlobStorage''
                                (''Delete blob folder failed for '' @ sq @ ''media'' @ sq @ '': '' @
                                 showNat 1 @ '' items.'')]
                        else []),
                     detached = []\<rparr>" by simp
  then have "out = \<lparr>returned = Inr Undefined,
           effects = [SubmitBatch [exampleUrl ''/media/0'', exampleUrl ''/media/1''],
                      TrackEvent ''AzureBlobStorage''
                        (''Delete blob folder failed for '' @ sq @ ''media'' @ sq @ '': 1 items.'')],
           detached = []\<rparr>"
    by (simp add: u showNat.simps)
  with o h1 h2 h3 h4 h5 show ?thesis by blast
qed

text \<open>
  C2 as stated fails: with three blobs requested and one failure reported, the call returns
  \<^verbatim>\<open>undefined\<close>; the count is in the log only.
\<close>

theorem return_value_counterexample:
  "deleteBlobFolder (exampleBackend 3 oneFailed) exampleSettings ''media'' =
     Some \<lparr>returned = Inr Undefined,
           effects = [SubmitBatch [exampleUrl ''/media/0'', exampleUrl ''/media/1'',
                                   exampleUrl ''/media/2''],
                      TrackEvent ''AzureBlobStorage''
                        (''Delete blob folder failed for '' @ sq @ ''media'' @ sq @ '': 1 items.'')],
           detached = []\<rparr> \<and>
   Undefined \<noteq> batchOutcome 3 1"
proof -
  let ?be = "exampleBackend 3 oneFailed"
  let ?st = "\<lparr>basePath = [], hasBlobBatchClient = True\<rparr>"
  let ?names = "[''/media/0'', ''/media/1'', ''/media/2'']"
  have h1: "initialize ?be exampleSettings = Inr ?st" by (rule example_initialize)
  have h2: "hasBlobBatchClient ?st" by simp
  have h3: "listAllBlobItems ?be (getFullKey ?st ''media'') = Inr ?names"
    by (simp add: example_key example_listing example_names_3)
  have h4: "mapGetBlockBlobClient ?be ?names = Inr ?names" by (rule example_clients)
  show ?thesis
    by (simp add: deleteBlobFolder_reaches [OF h1 h2 h3 h4] deleteBlobFolder_try_def
        processDeleteBatch_result example_clientUrl example_submitBatch showNat.simps
        batchOutcome_def oneFailed_def)
qed

text \<open>
  C9, amended. For an empty listing the bulk delete returns \<^verbatim>\<open>undefined\<close>,
  submits no batch and writes nothing to the log.
\<close>

theorem empty_folder:
  assumes "initialize be settings = Inr this" and "hasBlobBatchClient this"
    and "listAllBlobItems be (getFullKey this blobPrefix) = Inr []"
  shows "deleteBlobFolder be settings blobPrefix =
           Some \<lparr>returned = Inr Undefined, effects = [], detached = []\<rparr> \<and>
         batchCalls be \<lparr>returned = Inr Undefined, effects = [], detached = []\<rparr> blobPrefix = []"
proof -
  have "mapGetBlockBlobClient be [] = Inr []" by simp
  from deleteBlobFolder_reaches [OF assms this] show ?thesis
    by (simp add: deleteBlobFolder_try_def batchCalls_def runDetached_def)
qed

theorem empty_folder_witness:
  "initialize (exampleBackend 0 allDeleted) exampleSettings =
     Inr \<lparr>basePath = [], hasBlobBatchClient = True\<rparr> \<and>
   hasBlobBatchClient \<lparr>basePath = [], hasBlobBatchClient = True\<rparr> \<and>
   listAllBlobItems (exampleBackend 0 allDeleted)
     (getFullKey \<lparr>basePath = [], hasBlobBatchClient = True\<rparr> ''media'') = Inr [] \<and>
   deleteBlobFolder (exampleBackend 0 allDeleted) exampleSettings ''media'' =
     Some \<lparr>returned = Inr Undefined, effects = [], detached = []\<rparr> \<and>
   batchCalls (exampleBackend 0 allDeleted)
     \<lparr>returned = Inr Undefined, effects = [], detached = []\<rparr> ''media'' = []"
proof -
  let ?be = "exampleBackend 0 allDeleted"
  let ?st = "\<lparr>basePath = [], hasBlobBatchClient = True\<rparr>"
  have h1: "initialize ?be exampleSettings = Inr ?st" by (rule example_initialize)
  have h2: "hasBlobBatchClient ?st" by simp
  have h3: "listAllBlobItems ?be (getFullKey ?st ''media'') = Inr []"
    by (simp add: example_key example_listing example_names_0)
  from empty_folder [OF h1 h2 h3] h1 h2 h3 show ?thesis by blast
qed

text \<open>
  C9 as stated fails in its first half: for an empty listing the call returns
  \<^verbatim>\<open>undefined\<close>, not an outcome of two zeros.
\<close>

theorem empty_folder_counterexample:
  "deleteBlobFolder (exampleBackend 0 allDeleted) exampleSettings '''' =
     Some \<lparr>returned = Inr Undefined, effects = [], detached = []\<rparr> \<and>
   Undefined \<noteq> batchOutcome 0 0"
  by (simp add: deleteBlobFolder_def example_initialize example_listing example_names_0
      deleteBlobFolder_try_def batchOutcome_def)

section \<open>Missing blobs\<close>

text \<open>
  The two \<^verbatim>\<open>catch\<close> blocks: a value with status code 404 thrown inside the
  \<^verbatim>\<open>try\<close> block ends \<^verbatim>\<open>deleteBlob\<close> normally and makes
  \<^verbatim>\<open>getDownloadUrl\<close> return \<^verbatim>\<open>null\<close>.
\<close>

lemma deleteBlob_catches_404:
  assumes "initialize be settings = Inr this"
    and "deleteBlob_try be this blobKey = Inl e" and "statusCode e = Some 404"
  shows "deleteBlob be settings blobKey = Inr Undefined"
  using assms by (simp add: deleteBlob_def)

lemma getDownloadUrl_catches_404:
  assumes "initialize be settings = Inr this"
    and "getDownloadUrl_try be (getFullKey this blobKey) = Inl e" and "statusCode e = Some 404"
  shows "getDownloadUrl be settings blobKey = Inr Null"
  using assms by (simp add: getDownloadUrl_def Let_def)

text \<open>
  The \<^verbatim>\<open>try\<close> block of \<^verbatim>\<open>getDownloadUrl\<close> never asks whether the blob
  exists (``without checking for its existence''): its result is decided by the making of
  the client and by the signing alone, whatever a request to delete the blob would answer.
\<close>

lemma initialize_ignores_delete:
  "initialize (be\<lparr>clientDelete := answer\<rparr>) settings = initialize be settings"
  by (simp add: initialize_def initContainer_def Let_def
      cong: sum.case_cong option.case_cong if_cong)

lemma getDownloadUrl_try_ignores_delete:
  "getDownloadUrl_try (be\<lparr>clientDelete := answer\<rparr>) blobName = getDownloadUrl_try be blobName"
  by (simp add: getDownloadUrl_try_def cong: sum.case_cong if_cong)

lemma getDownloadUrl_ignores_delete:
  "getDownloadUrl (be\<lparr>clientDelete := answer\<rparr>) settings blobKey = getDownloadUrl be settings blobKey"
  by (simp add: getDownloadUrl_def Let_def initialize_ignores_delete
      getDownloadUrl_try_ignores_delete cong: sum.case_cong)




section \<open>A chunk size of zero or less\<close>




section \<open>Groups that are not awaited\<close>

text \<open>
  C4. The claim is that a group whose submission fails makes \<^verbatim>\<open>deleteBlobFolder\<close>
  fail and stops the later groups. With 256 blobs and a batch endpoint that cannot be
  reached, the call completes normally with \<^verbatim>\<open>undefined\<close> before anything is
  submitted; two groups, of 250 and of 6, have been started, and each of them is submitted
  and fails on its own. (With fewer than 256 blobs the single group is awaited and the error
  reaches the caller: \<open>single_group_error_propagates\<close>.)
\<close>

theorem later_groups_not_awaited:
  "deleteBlobFolder (exampleBackend 256 unreachable) exampleSettings ''media'' =
     Some \<lparr>returned = Inr Undefined, effects = [],
           detached = [take 250 (exampleNames 256 ''/media''), drop 250 (exampleNames 256 ''/media'')]\<rparr> \<and>
   map fst (runDetached (exampleBackend 256 unreachable)
     [take 250 (exampleNames 256 ''/media''), drop 250 (exampleNames 256 ''/media'')] ''media'') =
     [Inl transportError, Inl transportError] \<and>
   map length [take 250 (exampleNames 256 ''/media''), drop 250 (exampleNames 256 ''/media'')] = [250, 6]"
proof -
  let ?be = "exampleBackend 256 unreachable"
  let ?st = "\<lparr>basePath = [], hasBlobBatchClient = True\<rparr>"
  let ?names = "exampleNames 256 ''/media''"
  have h1: "initialize ?be exampleSettings = Inr ?st" by (rule example_initialize)
  have h2: "hasBlobBatchClient ?st" by simp
  have h3: "listAllBlobItems ?be (getFullKey ?st ''media'') = Inr ?names"
    by (simp only: example_key example_listing)
  have h4: "mapGetBlockBlobClient ?be ?names = Inr ?names" by (rule example_clients)
  have "chunkArray ?names (int 250) = Some ([take 250 ?names, drop 250 ?names], [])"
    by (intro chunkArray_two) (simp_all add: exampleNames_length)
  then have t: "deleteBlobFolder_try ?be ?names ''media'' =
      Some \<lparr>returned = Inr Undefined, effects = [], detached = [take 250 ?names, drop 250 ?names]\<rparr>"
    by (simp add: deleteBlobFolder_try_def exampleNames_length)
  have a: "deleteBlobFolder ?be exampleSettings ''media'' =
      Some \<lparr>returned = Inr Undefined, effects = [], detached = [take 250 ?names, drop 250 ?names]\<rparr>"
    by (simp add: deleteBlobFolder_reaches [OF h1 h2 h3 h4] t)
  have b: "map fst (runDetached ?be [take 250 ?names, drop 250 ?names] ''media'') =
      [Inl transportError, Inl transportError]"
    by (simp add: runDetached_def processDeleteBatch_result example_submitBatch unreachable_def)
  have c: "map length [take 250 ?names, drop 250 ?names] = [250, 6]"
    by (simp add: exampleNames_length)
  from a b c show ?thesis by blast
qed

section \<open>Properties of the key helpers\<close>

lemma startsWith_slash: "startsWith v ''/'' \<longleftrightarrow> v \<noteq> [] \<and> hd v = slash"
  by (cases v) (auto simp: startsWith_def slash_def)

lemma drop_last: "v \<noteq> [] \<Longrightarrow> drop (length v - Suc 0) v = [last v]"
  by (induction v) (auto simp: drop_Cons')

lemma endsWith_slash: "endsWith v ''/'' \<longleftrightarrow> v \<noteq> [] \<and> last v = slash"
proof (cases "v = []")
  case True then show ?thesis by (simp add: endsWith_def)
next
  case False
  with drop_last [OF False] show ?thesis by (auto simp: endsWith_def slash_def Suc_le_eq)
qed

lemma no_backslash_replaceBackslashes: "backslash \<notin> set (replaceBackslashes v)"
  by (auto simp: replaceBackslashes_def slash_def backslash_def)

lemma set_replaceSlashRuns: "set (replaceSlashRuns v) \<subseteq> set v"
  by (induction v rule: replaceSlashRuns.induct) (auto dest: set_dropWhileD)

lemma hd_replaceSlashRuns: "v \<noteq> [] \<Longrightarrow> hd (replaceSlashRuns v) = hd v"
  by (cases v) auto

lemma replaceSlashRuns_Nil: "replaceSlashRuns v = [] \<longleftrightarrow> v = []"
  by (cases v) auto

lemma hasSlashRun_Cons:
  "hasSlashRun (c # v) \<longleftrightarrow> (c = slash \<and> v \<noteq> [] \<and> hd v = slash) \<or> hasSlashRun v"
  by (cases v) auto

lemma no_run_replaceSlashRuns: "\<not> hasSlashRun (replaceSlashRuns v)"
proof (induction v rule: replaceSlashRuns.induct)
  case 1
  show ?case by simp
next
  case (2 c cs)
  show ?case
  proof (cases "c = slash \<and> cs \<noteq> [] \<and> hd cs = slash")
    case True
    let ?r = "dropWhile (\<lambda>x. x = slash) cs"
    have "?r \<noteq> [] \<Longrightarrow> hd ?r \<noteq> slash"
      using hd_dropWhile [of "\<lambda>x. x = slash" cs] by simp
    then have "replaceSlashRuns ?r \<noteq> [] \<Longrightarrow> hd (replaceSlashRuns ?r) \<noteq> slash"
      by (simp add: replaceSlashRuns_Nil hd_replaceSlashRuns)
    with True "2.IH"(1) show ?thesis by (auto simp: hasSlashRun_Cons)
  next
    case False
    with "2.IH"(2) show ?thesis
      by (auto simp: hasSlashRun_Cons replaceSlashRuns_Nil hd_replaceSlashRuns)
  qed
qed

lemma hasSlashRun_tl: "\<not> hasSlashRun v \<Longrightarrow> \<not> hasSlashRun (drop (Suc 0) v)"
  by (cases v) (auto simp: hasSlashRun_Cons)

lemma hasSlashRun_append: "hasSlashRun v \<Longrightarrow> hasSlashRun (v @ w)"
  by (induction v rule: hasSlashRun.induct) auto

lemma hasSlashRun_take: "\<not> hasSlashRun v \<Longrightarrow> \<not> hasSlashRun (take k v)"
  using hasSlashRun_append [of "take k v" "drop k v"] by auto

lemma hasSlashRun_snoc:
  "hasSlashRun (v @ [c]) \<longleftrightarrow> hasSlashRun v \<or> (v \<noteq> [] \<and> last v = slash \<and> c = slash)"
  by (induction v rule: hasSlashRun.induct) auto

lemma strip_leading:
  assumes "\<not> hasSlashRun v"
  shows "\<not> startsWith (if startsWith v ''/'' then drop 1 v else v) ''/''"
proof (cases v)
  case Nil
  then show ?thesis by (simp add: startsWith_slash)
next
  case (Cons c w)
  with assms show ?thesis by (auto simp: startsWith_slash hasSlashRun_Cons)
qed

lemma strip_trailing:
  assumes "\<not> hasSlashRun v"
  shows "\<not> endsWith (if endsWith v ''/'' then take (length v - 1) v else v) ''/''"
proof (cases "endsWith v ''/''")
  case False
  then show ?thesis by simp
next
  case True
  then have ne: "v \<noteq> []" and l: "last v = slash" by (simp_all add: endsWith_slash)
  from ne have "butlast v @ [last v] = v" by (rule append_butlast_last_id)
  with l assms have "\<not> hasSlashRun (butlast v @ [slash])" by simp
  then have "\<not> (butlast v \<noteq> [] \<and> last (butlast v) = slash)"
    by (simp add: hasSlashRun_snoc)
  moreover have "take (length v - 1) v = butlast v" by (simp add: butlast_conv_take)
  ultimately show ?thesis using True by (simp add: endsWith_slash)
qed

lemma startsWith_take:
  "\<not> startsWith v ''/'' \<Longrightarrow> \<not> startsWith (take k v) ''/''"
  by (cases k; cases v) (auto simp: startsWith_slash)

lemma normalizePath_base_canonical: "canonicalKey (normalizePath_base value)"
proof -
  define v1 where "v1 = replaceSlashRuns (replaceBackslashes value)"
  define v2 where "v2 = (if startsWith v1 ''/'' then drop 1 v1 else v1)"
  define v3 where "v3 = (if endsWith v2 ''/'' then take (length v2 - 1) v2 else v2)"
  have n: "normalizePath_base value = v3"
    by (simp add: normalizePath_base_def Let_def v1_def v2_def v3_def)
  have b1: "backslash \<notin> set v1"
    unfolding v1_def using set_replaceSlashRuns no_backslash_replaceBackslashes by blast
  have r1: "\<not> hasSlashRun v1" unfolding v1_def by (rule no_run_replaceSlashRuns)
  have b2: "backslash \<notin> set v2" using b1 by (auto simp: v2_def dest: in_set_dropD)
  have r2: "\<not> hasSlashRun v2" using r1 by (simp add: v2_def hasSlashRun_tl)
  have s2: "\<not> startsWith v2 ''/''" unfolding v2_def using r1 by (rule strip_leading)
  have b3: "backslash \<notin> set v3" using b2 by (auto simp: v3_def dest: in_set_takeD)
  have r3: "\<not> hasSlashRun v3" using r2 by (simp add: v3_def hasSlashRun_take)
  have s3: "\<not> startsWith v3 ''/''" using s2 by (simp add: v3_def startsWith_take)
  have e3: "\<not> endsWith v3 ''/''" unfolding v3_def using r2 by (rule strip_trailing)
  from b3 r3 s3 e3 show ?thesis unfolding n canonicalKey_def by blast
qed

lemma getFullKey_base_canonical: "canonicalKey (getFullKey_base this blobKey)"
  by (simp add: getFullKey_base_def Let_def normalizePath_base_canonical)


lemma getFullKey_base_examples:
  "getFullKey_base \<lparr>basePath = normalizePath_base [], hasBlobBatchClient = True\<rparr> ''a/b'' = ''a/b'' \<and>
   getFullKey_base \<lparr>basePath = normalizePath_base [], hasBlobBatchClient = True\<rparr> [] = [] \<and>
   getFullKey_base \<lparr>basePath = normalizePath_base ''base'', hasBlobBatchClient = True\<rparr> ''/a//b/'' = ''base/a/b''"
  by (simp add: getFullKey_base_def normalizePath_base_def replaceBackslashes_def startsWith_def
      endsWith_def backslash_def slash_def)

lemma normalizePath_no_backslash: "backslash \<notin> set (normalizePath v)"
proof -
  define v1 where "v1 = replaceBackslashes v"
  define v2 where "v2 = (if startsWith v1 ''/'' then drop 1 v1 else v1)"
  define v3 where "v3 = (if endsWith v2 ''/'' then take (length v2 - 1) v2 else v2)"
  have "backslash \<notin> set v1" unfolding v1_def by (rule no_backslash_replaceBackslashes)
  then have "backslash \<notin> set v2" by (auto simp: v2_def dest: in_set_dropD)
  then have "backslash \<notin> set v3" by (auto simp: v3_def dest: in_set_takeD)
  then have "backslash \<notin> set (replaceSlashRuns v3)" using set_replaceSlashRuns by blast
  moreover have "normalizePath v = replaceSlashRuns v3"
    unfolding normalizePath_def Let_def v1_def v2_def v3_def ..
  ultimately show ?thesis by simp
qed

lemma normalizePath_no_run: "\<not> hasSlashRun (normalizePath v)"
  by (simp add: normalizePath_def Let_def no_run_replaceSlashRuns)

text \<open>
  C1. The claim is that every resolved key is free of backslashes and of runs of slashes and
  neither begins nor ends with a slash. \<^verbatim>\<open>getFullKey\<close> of
  \<^verbatim>\<open>azureBlobStorage.ts\<close> puts the separator in also when the base path is
  empty, and its \<^verbatim>\<open>normalizePath\<close> drops the leading and the trailing slash
  before it collapses the runs: the key begins with a slash for an empty base path, ends
  with one for the raw key \<open>a//\<close>, and holds two slashes in a row for the raw key
  \<open>//a\<close>. (The helpers of the abstract base class meet the claim:
  \<open>getFullKey_base_canonical\<close>.)
\<close>

theorem resolved_key_not_canonical:
  "getFullKey \<lparr>basePath = normalizePath '''', hasBlobBatchClient = True\<rparr> ''a/b'' = ''/a/b'' \<and>
   startsWith ''/a/b'' ''/'' \<and>
   getFullKey \<lparr>basePath = normalizePath ''base'', hasBlobBatchClient = True\<rparr> ''a//'' = ''base/a/'' \<and>
   endsWith ''base/a/'' ''/'' \<and>
   getFullKey \<lparr>basePath = normalizePath ''base'', hasBlobBatchClient = True\<rparr> ''//a'' = ''base//a'' \<and>
   hasSlashRun ''base//a'' \<and>
   \<not> canonicalKey (getFullKey \<lparr>basePath = normalizePath '''', hasBlobBatchClient = True\<rparr> ''a/b'')"
  by (simp add: getFullKey_def normalizePath_def replaceBackslashes_def startsWith_def
      endsWith_def backslash_def slash_def canonicalKey_def)

text \<open>
  C5. The claim is \<open>resolve("", "a/b") = "a/b"\<close>, \<open>resolve("base", "/a//b/") = "base/a/b"\<close>
  and an empty result for an empty base path and an empty key. The first and the last fail
  in \<^verbatim>\<open>azureBlobStorage.ts\<close>, where the separator is always written; the second
  holds. (The helpers of the abstract base class give all three:
  \<open>getFullKey_base_examples\<close>.)
\<close>

theorem resolve_examples:
  "getFullKey \<lparr>basePath = normalizePath '''', hasBlobBatchClient = True\<rparr> ''a/b'' = ''/a/b'' \<and>
   getFullKey \<lparr>basePath = normalizePath '''', hasBlobBatchClient = True\<rparr> '''' = ''/'' \<and>
   getFullKey \<lparr>basePath = normalizePath ''base'', hasBlobBatchClient = True\<rparr> ''/a//b/'' = ''base/a/b''"
  by (simp add: getFullKey_def normalizePath_def replaceBackslashes_def startsWith_def
      endsWith_def backslash_def slash_def)

end
